theory Spec2Isabelle
  imports Main
begin

section \<open>Shallow embedding of \<open>powa/sql/__init__.py\<close>\<close>

text \<open>
  The module shapes qual statistics of PostgreSQL into Python objects and SQL text. Its
  functions are embedded one by one, under the names of the source. Python exceptions are
  values of the type \<open>error\<close>; a function that can raise returns \<open>error + 'a\<close>, with
  \<open>Inl\<close> for the exception. Values the module only passes through (counts, ratios, planner
  statistics, bound parameters of a query) have the type variable \<open>'v\<close> or \<open>'p\<close>; Python's
  \<open>None\<close> for such a value is \<open>None\<close> of the option type.
\<close>

datatype error = ValueError | KeyError | TypeError | IndexError

subsection \<open>\<open>format_jumbled_query\<close>\<close>

text \<open>
  \<open>re.sub("\?", lambda val: next(it), sql)\<close> scans \<open>sql\<close> from left to right and calls the
  function once for every question mark, in order; the function takes the next element of the
  iterator \<open>it\<close> over \<open>params\<close>. When the iterator is exhausted, \<open>next\<close> raises
  \<open>StopIteration\<close>, which leaves \<open>re.sub\<close> without a result: \<open>re_sub\<close> returns \<open>None\<close> then.
  The second argument of \<open>re_sub\<close> is the state of the iterator (what it has yet to give).
\<close>

fun re_sub :: "string \<Rightarrow> string list \<Rightarrow> string option" where
  "re_sub [] it = Some []"
| "re_sub (c # cs) it =
     (if c = CHR ''?'' then
        (case it of
           [] \<Rightarrow> None
         | val # it' \<Rightarrow> map_option (\<lambda>r. val @ r) (re_sub cs it'))
      else map_option (\<lambda>r. c # r) (re_sub cs it))"

text \<open>
  The assignment \<open>sql = re.sub(...)\<close> stands inside the \<open>try\<close>: when \<open>StopIteration\<close> is
  caught, the assignment has not happened and \<open>sql\<close> is still the argument.
\<close>

definition format_jumbled_query :: "string \<Rightarrow> string list \<Rightarrow> string" where
  "format_jumbled_query sql params =
     (case re_sub sql params of
        Some sql' \<Rightarrow> sql'
      | None \<Rightarrow> sql)"

subsection \<open>\<open>ResolvedQual\<close> and \<open>ComposedQual\<close>\<close>

text \<open>
  The fields of a class are the fields of a record, prefixed by the initials of the class
  (\<open>rq_relname\<close> is \<open>ResolvedQual.relname\<close>, \<open>cq_relname\<close> is \<open>ComposedQual.relname\<close>,
  \<open>hi_relname\<close> is \<open>HypoIndex.relname\<close>), since the classes share field names.
\<close>

record 'v ResolvedQual =
  rq_nspname :: string
  rq_relname :: string
  rq_attname :: string
  rq_opname :: string
  rq_indexam_names :: "string list"
  rq_n_distinct :: "'v option"
  rq_most_common_values :: "'v option"
  rq_null_frac :: "'v option"
  rq_example_values :: "'v list"
  rq_eval_type :: "string option"

record 'v ComposedQual =
  cq_qualid :: "'v option"
  cq_relname :: "string option"
  cq_nspname :: "string option"
  cq_nbfiltered :: "'v option"
  cq_filter_ratio :: "'v option"
  cq_count :: "'v option"
  cq_table_liverows :: "'v option"
  cq_quals :: "'v ResolvedQual list"

text \<open>
  \<open>ComposedQual.append\<close> (here \<open>append_qual\<close>) takes any Python object and raises
  \<open>ValueError\<close> unless it is an instance of \<open>ResolvedQual\<close>; it looks at nothing else.
\<close>

datatype 'v element = AResolvedQual "'v ResolvedQual" | NotAResolvedQual

fun append_qual :: "'v ComposedQual \<Rightarrow> 'v element \<Rightarrow> error + 'v ComposedQual" where
  "append_qual self NotAResolvedQual = Inl ValueError"
| "append_qual self (AResolvedQual element) = Inr (self\<lparr>cq_quals := cq_quals self @ [element]\<rparr>)"

subsection \<open>\<open>resolve_quals\<close>\<close>

text \<open>
  A predicate reference is the dictionary \<open>v\<close> with the keys \<open>opno\<close>, \<open>relid\<close>, \<open>attnum\<close>
  and \<open>eval_type\<close>; the identifiers are strings (the source compares \<open>relid\<close> with \<open>'0'\<close>
  and builds the key \<open>"%s.%s" % (relid, attnum)\<close>). The attribute of a row that holds the
  quals is either one such dictionary or a list of them.
\<close>

record qualref =
  opno :: string
  relid :: string
  attnum :: string
  eval_type :: "string option"

datatype qualsval = QDict qualref | QList "qualref list"

text \<open>
  A row maps the names of its qual attributes to their values (\<open>row[attribute]\<close> raises
  \<open>KeyError\<close> for a name it does not have) and has the columns \<open>count\<close>, \<open>nbfiltered\<close>,
  \<open>filter_ratio\<close> and \<open>qualid\<close>.
\<close>

record 'v qualrow =
  row_attrs :: "string \<rightharpoonup> qualsval"
  row_count :: "'v option"
  row_nbfiltered :: "'v option"
  row_filter_ratio :: "'v option"
  row_qualid :: "'v option"

text \<open>
  The values of the JSON objects the two catalog queries aggregate: one per operator
  (\<open>RESOLVE_OPNAME\<close>) and one per attribute (\<open>RESOLVE_ATTNAME\<close>).
\<close>

record opinfo =
  op_name :: string
  op_indexams :: "string list"
  op_indexam_names :: "string list"

record 'v attinfo =
  att_relname :: string
  att_attname :: string
  att_nspname :: string
  att_n_distinct :: "'v option"
  att_null_frac :: "'v option"
  att_most_common_values :: "'v option"
  att_table_liverows :: "'v option"

text \<open>
  The connection is the database: what \<open>conn.execute(...).scalar()\<close> returns for each of the
  two statements is a parameter (a dictionary, or \<open>None\<close> when the aggregate is SQL
  \<open>NULL\<close>), and \<open>executed\<close> records the statements issued, oldest first. The bound
  parameter is \<open>tuple(s)\<close> of a Python set \<open>s\<close>, whose order is not specified: the statement
  is recorded with the set. A statement is assumed to return (an exception of the database
  driver is not modelled).
\<close>

datatype statement =
  RESOLVE_OPNAME "string set"
| RESOLVE_ATTNAME "(string \<times> string) set"

record 'v connection =
  opname_scalar :: "string set \<Rightarrow> (string \<rightharpoonup> opinfo) option"
  attname_scalar :: "(string \<times> string) set \<Rightarrow> (string \<rightharpoonup> 'v attinfo) option"
  executed :: "statement list"

definition execute_opname ::
  "'v connection \<Rightarrow> string set \<Rightarrow> (string \<rightharpoonup> opinfo) option \<times> 'v connection" where
  "execute_opname conn oid_list =
     (opname_scalar conn oid_list, conn\<lparr>executed := executed conn @ [RESOLVE_OPNAME oid_list]\<rparr>)"

definition execute_attname ::
  "'v connection \<Rightarrow> (string \<times> string) set \<Rightarrow> (string \<rightharpoonup> 'v attinfo) option \<times> 'v connection" where
  "execute_attname conn att_list =
     (attname_scalar conn att_list, conn\<lparr>executed := executed conn @ [RESOLVE_ATTNAME att_list]\<rparr>)"

text \<open>
  \<open>d[k]\<close> on what a query returned: \<open>TypeError\<close> when it is \<open>None\<close>, \<open>KeyError\<close> when the
  dictionary has no key \<open>k\<close>.
\<close>

definition subscript :: "('k \<rightharpoonup> 'a) option \<Rightarrow> 'k \<Rightarrow> error + 'a" where
  "subscript d k =
     (case d of
        None \<Rightarrow> Inl TypeError
      | Some m \<Rightarrow> (case m k of None \<Rightarrow> Inl KeyError | Some x \<Rightarrow> Inr x))"

text \<open>
  The first loop (lines 163 to 169). \<open>as_list\<close> is
  \<open>if not isinstance(values, list): values = [values]\<close>; \<open>look\<close> is the body of the inner
  loop, \<open>collect\<close> the outer loop over the rows, with the two sets as its state.
\<close>

fun as_list :: "qualsval \<Rightarrow> qualref list" where
  "as_list (QList values) = values"
| "as_list (QDict values) = [values]"

definition look ::
  "qualref \<Rightarrow> string set \<times> (string \<times> string) set \<Rightarrow> string set \<times> (string \<times> string) set" where
  "look v s = (insert (opno v) (fst s), insert (relid v, attnum v) (snd s))"

fun collect ::
  "string \<Rightarrow> 'v qualrow list \<Rightarrow> string set \<times> (string \<times> string) set
     \<Rightarrow> error + (string set \<times> (string \<times> string) set)" where
  "collect attribute [] s = Inr s"
| "collect attribute (row # quallist) s =
     (case row_attrs row attribute of
        None \<Rightarrow> Inl KeyError
      | Some values \<Rightarrow> collect attribute quallist (fold look (as_list values) s))"

text \<open>
  The two guarded catalog queries (lines 170 to 177): \<open>operators\<close> and \<open>attnames\<close> start
  as empty dictionaries, and each is replaced by the result of its query only when its set
  is not empty.
\<close>

definition lookup_catalogs ::
  "'v connection \<Rightarrow> string set \<Rightarrow> (string \<times> string) set
     \<Rightarrow> (string \<rightharpoonup> opinfo) option \<times> (string \<rightharpoonup> 'v attinfo) option \<times> 'v connection" where
  "lookup_catalogs conn operator_to_look attname_to_look =
     (let (operators, conn1) =
            (if operator_to_look \<noteq> {} then execute_opname conn operator_to_look
             else (Some Map.empty, conn));
          (attnames, conn2) =
            (if attname_to_look \<noteq> {} then execute_attname conn1 attname_to_look
             else (Some Map.empty, conn1))
      in (operators, attnames, conn2))"

text \<open>
  The second loop (lines 179 to 210). \<open>relevant\<close> is the comprehension
  \<open>[v for v in row[attribute] if v['relid'] != '0']\<close>. Over a list it filters. Over a single
  dictionary it iterates over the keys of the dictionary, which are strings, and
  \<open>v['relid']\<close> on the first of them raises \<open>TypeError\<close> (a reference has four keys, so there
  is a first). The test \<open>if not isinstance(values, list)\<close> that follows the comprehension
  never holds, since a comprehension gives a list.
\<close>

fun relevant :: "qualsval \<Rightarrow> error + qualref list" where
  "relevant (QList values) = Inr (filter (\<lambda>v. relid v \<noteq> ''0'') values)"
| "relevant (QDict values) = Inl TypeError"

text \<open>The empty \<open>ComposedQual\<close> a row starts with (lines 181 to 186).\<close>

definition new_ComposedQual :: "'v qualrow \<Rightarrow> 'v ComposedQual" where
  "new_ComposedQual row =
     \<lparr>cq_qualid = row_qualid row, cq_relname = None, cq_nspname = None,
      cq_nbfiltered = row_nbfiltered row, cq_filter_ratio = row_filter_ratio row,
      cq_count = row_count row, cq_table_liverows = None, cq_quals = []\<rparr>"

text \<open>
  Lines 193 to 200: the relation of the composed qual is checked against the resolved
  attribute when it is set, and set from it otherwise.
\<close>

definition check_relation :: "'v ComposedQual \<Rightarrow> 'v attinfo \<Rightarrow> error + 'v ComposedQual" where
  "check_relation newqual attname =
     (case cq_relname newqual of
        Some r \<Rightarrow> if r \<noteq> att_relname attname then Inl ValueError else Inr newqual
      | None \<Rightarrow>
          Inr (newqual\<lparr>cq_relname := Some (att_relname attname),
                       cq_nspname := Some (att_nspname attname),
                       cq_table_liverows := att_table_liverows attname\<rparr>))"

text \<open>The \<open>ResolvedQual\<close> of lines 201 to 210 (\<open>example_values\<close> is not given: \<open>[]\<close>).\<close>

definition resolved ::
  "'v attinfo \<Rightarrow> opinfo \<Rightarrow> qualref \<Rightarrow> 'v ResolvedQual" where
  "resolved attname oper v =
     \<lparr>rq_nspname = att_nspname attname, rq_relname = att_relname attname,
      rq_attname = att_attname attname, rq_opname = op_name oper,
      rq_indexam_names = op_indexam_names oper, rq_n_distinct = att_n_distinct attname,
      rq_most_common_values = att_most_common_values attname,
      rq_null_frac = att_null_frac attname, rq_example_values = [],
      rq_eval_type = eval_type v\<rparr>"

text \<open>The body of the loop over the parts of one row (lines 192 to 210).\<close>

definition add_part ::
  "(string \<rightharpoonup> 'v attinfo) option \<Rightarrow> (string \<rightharpoonup> opinfo) option
     \<Rightarrow> 'v ComposedQual \<Rightarrow> qualref \<Rightarrow> error + 'v ComposedQual" where
  "add_part attnames operators newqual v =
     (case subscript attnames (relid v @ ''.'' @ attnum v) of
        Inl e \<Rightarrow> Inl e
      | Inr attname \<Rightarrow>
          (case check_relation newqual attname of
             Inl e \<Rightarrow> Inl e
           | Inr newqual' \<Rightarrow>
               (case subscript operators (opno v) of
                  Inl e \<Rightarrow> Inl e
                | Inr oper \<Rightarrow> append_qual newqual' (AResolvedQual (resolved attname oper v)))))"

fun add_parts ::
  "(string \<rightharpoonup> 'v attinfo) option \<Rightarrow> (string \<rightharpoonup> opinfo) option
     \<Rightarrow> 'v ComposedQual \<Rightarrow> qualref list \<Rightarrow> error + 'v ComposedQual" where
  "add_parts attnames operators newqual [] = Inr newqual"
| "add_parts attnames operators newqual (v # values) =
     (case add_part attnames operators newqual v of
        Inl e \<Rightarrow> Inl e
      | Inr newqual' \<Rightarrow> add_parts attnames operators newqual' values)"

text \<open>
  One turn of the loop over the rows. The source appends \<open>newqual\<close> to \<open>new_qual_list\<close>
  before it fills it; the list holds the object itself, so it shows the filled qual, and an
  exception discards the list.
\<close>

definition compose_row ::
  "string \<Rightarrow> (string \<rightharpoonup> 'v attinfo) option \<Rightarrow> (string \<rightharpoonup> opinfo) option
     \<Rightarrow> 'v qualrow \<Rightarrow> error + 'v ComposedQual" where
  "compose_row attribute attnames operators row =
     (case row_attrs row attribute of
        None \<Rightarrow> Inl KeyError
      | Some rv \<Rightarrow>
          (case relevant rv of
             Inl e \<Rightarrow> Inl e
           | Inr values \<Rightarrow> add_parts attnames operators (new_ComposedQual row) values))"

fun compose_rows ::
  "string \<Rightarrow> (string \<rightharpoonup> 'v attinfo) option \<Rightarrow> (string \<rightharpoonup> opinfo) option
     \<Rightarrow> 'v qualrow list \<Rightarrow> 'v ComposedQual list \<Rightarrow> error + 'v ComposedQual list" where
  "compose_rows attribute attnames operators [] new_qual_list = Inr new_qual_list"
| "compose_rows attribute attnames operators (row # quallist) new_qual_list =
     (case compose_row attribute attnames operators row of
        Inl e \<Rightarrow> Inl e
      | Inr newqual \<Rightarrow>
          compose_rows attribute attnames operators quallist (new_qual_list @ [newqual]))"

text \<open>
  \<open>quallist\<close> is any iterable of rows, and the source has two \<open>for\<close> loops over it. A
  sequence (a list, a tuple) gives all its items to every loop. A one-shot iterator (a
  generator, an iterator over a cursor) gives each item once: the loop that runs to the end
  takes what is left and leaves nothing. \<open>iterate\<close> is one such loop: the items it goes
  through, and the iterable as the loop leaves it.
\<close>

datatype 'a iterable = Sequence "'a list" | Iterator "'a list"

fun iterate :: "'a iterable \<Rightarrow> 'a list \<times> 'a iterable" where
  "iterate (Sequence xs) = (xs, Sequence xs)"
| "iterate (Iterator xs) = (xs, Iterator [])"

text \<open>
  \<open>resolve_quals\<close> returns the connection as it leaves it, with the list of composed quals
  or the exception.
\<close>

definition resolve_quals ::
  "'v connection \<Rightarrow> 'v qualrow iterable \<Rightarrow> string
     \<Rightarrow> 'v connection \<times> (error + 'v ComposedQual list)" where
  "resolve_quals conn quallist attribute =
     (case iterate quallist of
        (rows, quallist') \<Rightarrow>
          (case collect attribute rows ({}, {}) of
             Inl e \<Rightarrow> (conn, Inl e)
           | Inr (operator_to_look, attname_to_look) \<Rightarrow>
               (case lookup_catalogs conn operator_to_look attname_to_look of
                  (operators, attnames, conn') \<Rightarrow>
                    (conn',
                     compose_rows attribute attnames operators (fst (iterate quallist')) []))))"

subsection \<open>\<open>qual_constants\<close>\<close>

text \<open>
  What SQLAlchemy builds is kept as data: \<open>text(s).params(**kw)\<close> is \<open>TextClause s kw\<close> and
  \<open>select(cols).select_from(base)\<close> is \<open>SelectFrom cols base\<close>. The filter clause is any
  value; \<open>compile\<close> stands for \<open>filter_clause.compile(dialect=dialect)\<close> and gives the
  string of the compiled clause with its parameters.
\<close>

datatype 'p text_clause = TextClause string "string \<rightharpoonup> 'p"

datatype 'p select_from = SelectFrom "string list" "'p text_clause"

record 'p compiled =
  compiled_str :: string
  compiled_params :: "string \<rightharpoonup> 'p"

definition orders :: "string \<rightharpoonup> string" where
  "orders = [''most_executed'' \<mapsto> ''4 DESC'', ''least_filtering'' \<mapsto> ''6'',
             ''most_filtering'' \<mapsto> ''6 DESC'']"

text \<open>The template of the query, cut at its four \<open>%s\<close>.\<close>

definition base_0 :: string where
  "base_0 =
     ''\<newline>'' @
     ''    (\<newline>'' @
     ''    WITH sample AS (\<newline>'' @
     ''    SELECT query, s.queryid, qn.qualid, quals as quals,\<newline>'' @
     ''                constants,\<newline>'' @
     ''                sum(count) as count,\<newline>'' @
     ''                sum(nbfiltered) as nbfiltered,\<newline>'' @
     ''                CASE WHEN sum(count) = 0 THEN 0 ELSE sum(nbfiltered) / sum(count) END AS filter_ratio\<newline>'' @
     ''        FROM powa_statements s\<newline>'' @
     ''        JOIN pg_database ON pg_database.oid = s.dbid\<newline>'' @
     ''        JOIN powa_qualstats_quals qn ON s.queryid = qn.queryid\<newline>'' @
     ''        JOIN (\<newline>'' @
     ''            SELECT *\<newline>'' @
     ''            FROM powa_qualstats_constvalues_history qnc\<newline>'' @
     ''            UNION ALL\<newline>'' @
     ''            SELECT *\<newline>'' @
     ''            FROM powa_qualstats_aggregate_constvalues_current\<newline>'' @
     ''        ) qnc ON qn.qualid = qnc.qualid AND qn.queryid = qnc.queryid,\<newline>'' @
     ''        LATERAL\<newline>'' @
     ''                unnest(''"

definition base_1 :: string where
  "base_1 =
     '') as t(constants,nbfiltered,count)\<newline>'' @
     ''        WHERE ''"

definition base_2 :: string where
  "base_2 =
     ''\<newline>'' @
     ''        GROUP BY qn.qualid, quals, constants, s.queryid, query\<newline>'' @
     ''        ORDER BY ''"

definition base_3 :: string where
  "base_3 =
     ''\<newline>'' @
     ''        LIMIT :top_value\<newline>'' @
     ''    )\<newline>'' @
     ''    SELECT query, queryid, qualid, quals, constants as constants, nbfiltered as nbfiltered,\<newline>'' @
     ''                count as count,\<newline>'' @
     ''                filter_ratio as filter_ratio,\<newline>'' @
     ''                row_number() OVER (ORDER BY count desc NULLS LAST) as rownumber\<newline>'' @
     ''        FROM sample\<newline>'' @
     ''    ORDER BY 9\<newline>'' @
     ''    LIMIT :top_value\<newline>'' @
     ''    ) ''"

definition base_4 :: string where
  "base_4 =
     ''\<newline>'' @
     ''    ''"

text \<open>
  The result is \<open>None\<close> for the bare \<open>return\<close>; the argument \<open>top\<close> of the source is
  \<open>top_value\<close> here. The call
  \<open>base.params(top_value=top, **filter_clause.params)\<close> raises \<open>TypeError\<close> when the
  compiled clause has a parameter named \<open>top_value\<close> itself (a keyword given twice).
\<close>

definition qual_constants ::
  "('f \<Rightarrow> 'p compiled) \<Rightarrow> string \<Rightarrow> 'f \<Rightarrow> 'p \<Rightarrow> error + 'p select_from option" where
  "qual_constants compile type filter_clause top_value =
     (if type \<notin> set [''most_executed'', ''most_filtering'', ''least_filtering''] then Inr None
      else
        (let filter_clause' = compile filter_clause in
         case orders type of
           None \<Rightarrow> Inl KeyError
         | Some order_by \<Rightarrow>
             (let base = base_0 @ type @ base_1 @ compiled_str filter_clause' @ base_2
                           @ order_by @ base_3 @ type @ base_4
              in if ''top_value'' \<in> dom (compiled_params filter_clause') then Inl TypeError
                 else Inr (Some (SelectFrom [''*'']
                        (TextClause base ((compiled_params filter_clause')(''top_value'' \<mapsto> top_value))))))))"

subsection \<open>\<open>HypoIndex\<close> and \<open>possible_indexes\<close>\<close>

definition quote_ident :: "string \<Rightarrow> string" where
  \<open>quote_ident name = ''"'' @ name @ ''"''\<close>

text \<open>
  \<open>hi_qual\<close> is the constructor's \<open>composed_qual\<close>, which defaults to \<open>None\<close>;
  \<open>possible_indexes\<close> gives it a list of \<open>ResolvedQual\<close>. \<open>hi_name\<close> is set by the caller
  once the index exists.
\<close>

record 'v HypoIndex =
  hi_nspname :: string
  hi_relname :: string
  hi_qual :: "'v ResolvedQual list option"
  hi_amname :: string
  hi_name :: "string option"

text \<open>\<open>sep.join(xs)\<close> of Python.\<close>

fun join :: "string \<Rightarrow> string list \<Rightarrow> string" where
  "join sep [] = []"
| "join sep [x] = x"
| "join sep (x # y # xs) = x @ sep @ join sep (y # xs)"

text \<open>
  The property \<open>ddl\<close>: a method that falls off its end returns \<open>None\<close>. Iterating over
  \<open>self.qual\<close> raises \<open>TypeError\<close> when it is \<open>None\<close>.
\<close>

definition ddl :: "'v HypoIndex \<Rightarrow> error + string option" where
  "ddl self =
     (if ''btree'' = hi_amname self then
        (case hi_qual self of
           None \<Rightarrow> Inl TypeError
         | Some quals \<Rightarrow>
             Inr (Some (''CREATE INDEX ON '' @ quote_ident (hi_nspname self) @ ''.''
                        @ quote_ident (hi_relname self) @ ''(''
                        @ join '','' (map (\<lambda>qual. quote_ident (rq_attname qual)) quals)
                        @ '')'')))
      else Inr None)"

text \<open>
  \<open>by_am\<close> is a \<open>defaultdict(list)\<close>: \<open>by_am[am].append(qual)\<close> appends to the list of the
  key \<open>am\<close>, and enters the key with an empty list first when it is new. The dictionary is
  an association list in the order the keys were entered, the order in which \<open>items()\<close>
  gives them.
\<close>

fun by_am_append ::
  "string \<Rightarrow> 'v ResolvedQual \<Rightarrow> (string \<times> 'v ResolvedQual list) list
     \<Rightarrow> (string \<times> 'v ResolvedQual list) list" where
  "by_am_append am qual [] = [(am, [qual])]"
| "by_am_append am qual ((k, quals) # by_am) =
     (if k = am then (k, quals @ [qual]) # by_am
      else (k, quals) # by_am_append am qual by_am)"

definition group_qual ::
  "'v ResolvedQual \<Rightarrow> (string \<times> 'v ResolvedQual list) list
     \<Rightarrow> (string \<times> 'v ResolvedQual list) list" where
  "group_qual qual by_am = fold (\<lambda>am. by_am_append am qual) (rq_indexam_names qual) by_am"

definition group_by_am ::
  "'v ResolvedQual list \<Rightarrow> (string \<times> 'v ResolvedQual list) list" where
  "group_by_am quals = fold group_qual quals []"

text \<open>The second loop; \<open>quals[0]\<close> raises \<open>IndexError\<close> on an empty list.\<close>

fun make_indexes ::
  "(string \<times> 'v ResolvedQual list) list \<Rightarrow> 'v HypoIndex list \<Rightarrow> error + 'v HypoIndex list" where
  "make_indexes [] indexes = Inr indexes"
| "make_indexes ((am, quals) # by_am) indexes =
     (case quals of
        [] \<Rightarrow> Inl IndexError
      | base # _ \<Rightarrow>
          make_indexes by_am
            (indexes @ [\<lparr>hi_nspname = rq_nspname base, hi_relname = rq_relname base,
                          hi_qual = Some quals, hi_amname = am, hi_name = None\<rparr>]))"

definition possible_indexes :: "'v ComposedQual \<Rightarrow> error + 'v HypoIndex list" where
  "possible_indexes composed_qual = make_indexes (group_by_am (cq_quals composed_qual)) []"

subsection \<open>Example data\<close>

text \<open>
  A small catalog, used where a theorem is evaluated at a concrete input: the table
  \<open>s.t\<close> (relation 16384) with the columns \<open>a\<close> and \<open>b\<close>, the table \<open>s.u\<close> (relation
  16390) with the column \<open>c\<close>, the operator 96 usable by btree indexes and the operator
  1754 usable by brin indexes.
\<close>

definition ex_attnames :: "string \<rightharpoonup> nat attinfo" where
  "ex_attnames =
     [''16384.1'' \<mapsto> \<lparr>att_relname = ''t'', att_attname = ''a'', att_nspname = ''s'',
                       att_n_distinct = Some 7, att_null_frac = Some 0,
                       att_most_common_values = None, att_table_liverows = Some 1000\<rparr>,
      ''16384.2'' \<mapsto> \<lparr>att_relname = ''t'', att_attname = ''b'', att_nspname = ''s'',
                       att_n_distinct = Some 3, att_null_frac = Some 0,
                       att_most_common_values = None, att_table_liverows = Some 1000\<rparr>,
      ''16390.1'' \<mapsto> \<lparr>att_relname = ''u'', att_attname = ''c'', att_nspname = ''s'',
                       att_n_distinct = Some 5, att_null_frac = Some 0,
                       att_most_common_values = None, att_table_liverows = Some 20\<rparr>]"

definition ex_operators :: "string \<rightharpoonup> opinfo" where
  "ex_operators =
     [''96'' \<mapsto> \<lparr>op_name = ''='', op_indexams = [''403''], op_indexam_names = [''btree'']\<rparr>,
      ''1754'' \<mapsto> \<lparr>op_name = ''<'', op_indexams = [''3580''], op_indexam_names = [''brin'']\<rparr>]"

definition ex_conn :: "nat connection" where
  "ex_conn = \<lparr>opname_scalar = (\<lambda>oid_list. Some ex_operators),
              attname_scalar = (\<lambda>att_list. Some ex_attnames), executed = []\<rparr>"

definition ex_ref_a :: qualref where
  "ex_ref_a = \<lparr>opno = ''96'', relid = ''16384'', attnum = ''1'', eval_type = Some ''f''\<rparr>"

definition ex_ref_b :: qualref where
  "ex_ref_b = \<lparr>opno = ''1754'', relid = ''16384'', attnum = ''2'', eval_type = Some ''i''\<rparr>"

definition ex_ref_c :: qualref where
  "ex_ref_c = \<lparr>opno = ''96'', relid = ''16390'', attnum = ''1'', eval_type = Some ''f''\<rparr>"

definition ex_row :: "qualsval \<Rightarrow> nat \<Rightarrow> nat qualrow" where
  "ex_row values qualid =
     \<lparr>row_attrs = [''quals'' \<mapsto> values], row_count = Some 10, row_nbfiltered = Some 4,
      row_filter_ratio = Some 40, row_qualid = Some qualid\<rparr>"

definition ex_qual_a :: "nat ResolvedQual" where
  "ex_qual_a =
     \<lparr>rq_nspname = ''s'', rq_relname = ''t'', rq_attname = ''a'', rq_opname = ''='',
      rq_indexam_names = [''btree''], rq_n_distinct = Some 7, rq_most_common_values = None,
      rq_null_frac = Some 0, rq_example_values = [], rq_eval_type = Some ''f''\<rparr>"

definition ex_qual_b :: "nat ResolvedQual" where
  "ex_qual_b =
     \<lparr>rq_nspname = ''s'', rq_relname = ''t'', rq_attname = ''b'', rq_opname = ''<'',
      rq_indexam_names = [''brin''], rq_n_distinct = Some 3, rq_most_common_values = None,
      rq_null_frac = Some 0, rq_example_values = [], rq_eval_type = Some ''i''\<rparr>"

definition ex_qual_c :: "nat ResolvedQual" where
  "ex_qual_c =
     \<lparr>rq_nspname = ''s'', rq_relname = ''u'', rq_attname = ''c'', rq_opname = ''='',
      rq_indexam_names = [''btree''], rq_n_distinct = Some 5, rq_most_common_values = None,
      rq_null_frac = Some 0, rq_example_values = [], rq_eval_type = Some ''f''\<rparr>"

definition ex_composed :: "nat ResolvedQual list \<Rightarrow> nat ComposedQual" where
  "ex_composed quals =
     \<lparr>cq_qualid = Some 7, cq_relname = Some ''t'', cq_nspname = Some ''s'',
      cq_nbfiltered = Some 4, cq_filter_ratio = Some 40, cq_count = Some 10,
      cq_table_liverows = Some 1000, cq_quals = quals\<rparr>"

section \<open>Properties\<close>

subsection \<open>Substituting constants into a jumbled query\<close>

lemma re_sub_no_qmark:
  "CHR ''?'' \<notin> set s \<Longrightarrow> re_sub (s @ r) it = map_option (\<lambda>x. s @ x) (re_sub r it)"
  by (induction s) (auto simp: map_option_case split: option.splits)

lemma re_sub_segments:
  "\<forall>s\<in>set segs. CHR ''?'' \<notin> set s \<Longrightarrow> CHR ''?'' \<notin> set rest \<Longrightarrow>
   length segs \<le> length params \<Longrightarrow>
   re_sub (concat (map (\<lambda>s. s @ ''?'') segs) @ rest) params
     = Some (concat (map2 (@) segs params) @ rest)"
proof (induction segs arbitrary: params)
  case Nil
  then show ?case using re_sub_no_qmark[of rest "[]" params] by simp
next
  case (Cons s segs)
  then obtain p ps where "params = p # ps" by (cases params) auto
  with Cons show ?case by (simp add: re_sub_no_qmark)
qed

lemma re_sub_shortage: "length it < count_list sql (CHR ''?'') \<Longrightarrow> re_sub sql it = None"
  by (induction sql arbitrary: it) (auto split: list.splits)

text \<open>
  Claim C1, as amended. Substitution is positional: with the query
  \<open>SELECT * FROM t WHERE a = ? AND b = ?\<close> and the constants \<open>1\<close> and \<open>2\<close> the result is
  \<open>SELECT * FROM t WHERE a = 1 AND b = 2\<close>, and in general a query made of the segments
  \<open>segs\<close>, each followed by a placeholder, and a \<open>rest\<close> (no question mark in any of them)
  has its \<open>i\<close>-th placeholder replaced by the \<open>i\<close>-th constant when there are at least as
  many constants as placeholders. With fewer constants than placeholders nothing is
  substituted: the query comes back as it was given, every placeholder still in it.
\<close>

theorem format_jumbled_query_positional_or_unchanged:
  "format_jumbled_query ''SELECT * FROM t WHERE a = ? AND b = ?'' [''1'', ''2'']
     = ''SELECT * FROM t WHERE a = 1 AND b = 2''
   \<and> ((\<forall>s\<in>set segs. CHR ''?'' \<notin> set s) \<and> CHR ''?'' \<notin> set rest \<and> length segs \<le> length params
        \<longrightarrow> format_jumbled_query (concat (map (\<lambda>s. s @ ''?'') segs) @ rest) params
              = concat (map2 (@) segs params) @ rest)
   \<and> (length params' < count_list sql (CHR ''?'') \<longrightarrow> format_jumbled_query sql params' = sql)"
proof (intro conjI impI)
  show "format_jumbled_query ''SELECT * FROM t WHERE a = ? AND b = ?'' [''1'', ''2'']
          = ''SELECT * FROM t WHERE a = 1 AND b = 2''"
    by (simp add: format_jumbled_query_def)
next
  assume "(\<forall>s\<in>set segs. CHR ''?'' \<notin> set s) \<and> CHR ''?'' \<notin> set rest \<and> length segs \<le> length params"
  then have "re_sub (concat (map (\<lambda>s. s @ ''?'') segs) @ rest) params
               = Some (concat (map2 (@) segs params) @ rest)"
    using re_sub_segments[of segs rest params] by blast
  then show "format_jumbled_query (concat (map (\<lambda>s. s @ ''?'') segs) @ rest) params
               = concat (map2 (@) segs params) @ rest"
    by (simp add: format_jumbled_query_def)
next
  assume "length params' < count_list sql (CHR ''?'')"
  then show "format_jumbled_query sql params' = sql"
    by (simp add: format_jumbled_query_def re_sub_shortage)
qed

text \<open>
  The theorem at a query with two placeholders: three constants fill both (the third is
  not used), one constant fills none.
\<close>

theorem format_jumbled_query_positional_or_unchanged_witness:
  "format_jumbled_query ''a = ? AND b = ?'' [''1'', ''2'', ''3''] = ''a = 1 AND b = 2''
   \<and> format_jumbled_query ''SELECT * FROM t WHERE a = ? AND b = ?'' [''1'']
       = ''SELECT * FROM t WHERE a = ? AND b = ?''"
  using format_jumbled_query_positional_or_unchanged
    [where segs = "[''a = '', '' AND b = '']" and rest = "[]" and params = "[''1'', ''2'', ''3'']"
       and sql = "''SELECT * FROM t WHERE a = ? AND b = ?''" and params' = "[''1'']"]
  by simp

text \<open>
  Claim C1 as the specification states it fails: with one constant for two placeholders the
  first placeholder is not replaced.
\<close>

theorem format_jumbled_query_shortage_counterexample:
  "format_jumbled_query ''SELECT * FROM t WHERE a = ? AND b = ?'' [''1'']
     \<noteq> ''SELECT * FROM t WHERE a = 1 AND b = ?''"
  by (simp add: format_jumbled_query_def)

subsection \<open>The DDL of a hypothetical index\<close>

lemma join_Cons: "join sep (x # xs) = x @ concat (map (\<lambda>y. sep @ y) xs)"
  by (induction xs arbitrary: x) simp_all

text \<open>
  Claim C6. The derived \<open>ddl\<close> of a \<open>HypoIndex\<close> is \<open>None\<close> whenever its access method is
  not \<open>btree\<close>. For every btree index over a list of columns it is \<open>CREATE INDEX ON\<close>,
  the namespace in double quotes, a dot, the relation in double quotes and, in
  parentheses, the column names, each in double quotes, in their stored order, with a comma
  before every column but the first; for the columns \<open>a\<close> and \<open>b\<close> on schema \<open>s\<close> and
  relation \<open>t\<close> this is \<open>CREATE INDEX ON "s"."t"("a","b")\<close>.
\<close>

theorem ddl_btree_only:
  \<open>(hi_amname self \<noteq> ''btree'' \<longrightarrow> ddl self = Inr None)
   \<and> (hi_amname self = ''btree'' \<and> hi_qual self = Some quals
        \<longrightarrow> ddl self
              = Inr (Some (''CREATE INDEX ON "'' @ hi_nspname self @ ''"."'' @ hi_relname self
                           @ ''"(''
                           @ (case quals of
                                [] \<Rightarrow> []
                              | qual # rest \<Rightarrow>
                                  ''"'' @ rq_attname qual @ ''"''
                                  @ concat (map (\<lambda>qual. '',"'' @ rq_attname qual @ ''"'') rest))
                           @ '')'')))
   \<and> (rq_attname qa = ''a'' \<and> rq_attname qb = ''b''
        \<longrightarrow> ddl \<lparr>hi_nspname = ''s'', hi_relname = ''t'', hi_qual = Some [qa, qb],
                 hi_amname = ''btree'', hi_name = name\<rparr>
              = Inr (Some ''CREATE INDEX ON "s"."t"("a","b")''))\<close>
proof (intro conjI impI)
  assume "hi_amname self \<noteq> ''btree''"
  then show "ddl self = Inr None"
    by (auto simp: ddl_def)
next
  assume "hi_amname self = ''btree'' \<and> hi_qual self = Some quals"
  then show \<open>ddl self
              = Inr (Some (''CREATE INDEX ON "'' @ hi_nspname self @ ''"."'' @ hi_relname self
                           @ ''"(''
                           @ (case quals of
                                [] \<Rightarrow> []
                              | qual # rest \<Rightarrow>
                                  ''"'' @ rq_attname qual @ ''"''
                                  @ concat (map (\<lambda>qual. '',"'' @ rq_attname qual @ ''"'') rest))
                           @ '')''))\<close>
    by (cases quals) (simp_all add: ddl_def quote_ident_def join_Cons comp_def)
next
  assume "rq_attname qa = ''a'' \<and> rq_attname qb = ''b''"
  then show \<open>ddl \<lparr>hi_nspname = ''s'', hi_relname = ''t'', hi_qual = Some [qa, qb],
                 hi_amname = ''btree'', hi_name = name\<rparr>
              = Inr (Some ''CREATE INDEX ON "s"."t"("a","b")'')\<close>
    by (simp add: ddl_def quote_ident_def)
qed

text \<open>
  The theorem at a brin index, at the btree index on \<open>s.t\<close> over \<open>a\<close> and \<open>b\<close>, and at
  a btree index over the three columns \<open>c\<close>, \<open>a\<close>, \<open>b\<close>, stored in this order.
\<close>

theorem ddl_btree_only_witness:
  \<open>ddl \<lparr>hi_nspname = ''s'', hi_relname = ''t'', hi_qual = Some [ex_qual_b],
         hi_amname = ''brin'', hi_name = None\<rparr> = Inr None
   \<and> ddl \<lparr>hi_nspname = ''s'', hi_relname = ''t'', hi_qual = Some [ex_qual_a, ex_qual_b],
           hi_amname = ''btree'', hi_name = Some ''idx''\<rparr>
       = Inr (Some ''CREATE INDEX ON "s"."t"("a","b")'')
   \<and> ddl \<lparr>hi_nspname = ''public'', hi_relname = ''u'',
           hi_qual = Some [ex_qual_c, ex_qual_a, ex_qual_b],
           hi_amname = ''btree'', hi_name = None\<rparr>
       = Inr (Some ''CREATE INDEX ON "public"."u"("c","a","b")'')\<close>
proof -
  have \<open>ddl \<lparr>hi_nspname = ''s'', hi_relname = ''t'', hi_qual = Some [ex_qual_b],
         hi_amname = ''brin'', hi_name = None\<rparr> = Inr None
   \<and> ddl \<lparr>hi_nspname = ''s'', hi_relname = ''t'', hi_qual = Some [ex_qual_a, ex_qual_b],
           hi_amname = ''btree'', hi_name = Some ''idx''\<rparr>
       = Inr (Some ''CREATE INDEX ON "s"."t"("a","b")'')\<close>
    using ddl_btree_only
      [where self = "\<lparr>hi_nspname = ''s'', hi_relname = ''t'', hi_qual = Some [ex_qual_b],
                      hi_amname = ''brin'', hi_name = None\<rparr>"
         and qa = ex_qual_a and qb = ex_qual_b and name = "Some ''idx''"]
    by (simp add: ex_qual_a_def ex_qual_b_def)
  moreover have \<open>ddl \<lparr>hi_nspname = ''public'', hi_relname = ''u'',
           hi_qual = Some [ex_qual_c, ex_qual_a, ex_qual_b],
           hi_amname = ''btree'', hi_name = None\<rparr>
       = Inr (Some ''CREATE INDEX ON "public"."u"("c","a","b")'')\<close>
    using ddl_btree_only
      [where self = "\<lparr>hi_nspname = ''public'', hi_relname = ''u'',
                      hi_qual = Some [ex_qual_c, ex_qual_a, ex_qual_b],
                      hi_amname = ''btree'', hi_name = None\<rparr>"
         and quals = "[ex_qual_c, ex_qual_a, ex_qual_b]", THEN conjunct2, THEN conjunct1]
    by (simp add: ex_qual_a_def ex_qual_b_def ex_qual_c_def)
  ultimately show ?thesis by simp
qed

subsection \<open>The composed quals of \<open>resolve_quals\<close>\<close>

lemma add_part_Inr:
  assumes "add_part attnames operators newqual v = Inr newqual'"
  shows "cq_count newqual' = cq_count newqual \<and> cq_nbfiltered newqual' = cq_nbfiltered newqual
         \<and> cq_filter_ratio newqual' = cq_filter_ratio newqual
         \<and> cq_qualid newqual' = cq_qualid newqual
         \<and> (\<exists>part. cq_quals newqual' = cq_quals newqual @ [part]
                    \<and> rq_eval_type part = eval_type v)"
proof -
  from assms obtain attname oper newqual1 where
    c: "check_relation newqual attname = Inr newqual1"
    and n: "newqual' = newqual1\<lparr>cq_quals := cq_quals newqual1 @ [resolved attname oper v]\<rparr>"
    by (auto simp: add_part_def split: sum.splits)
  from c have "cq_count newqual1 = cq_count newqual \<and> cq_nbfiltered newqual1 = cq_nbfiltered newqual
         \<and> cq_filter_ratio newqual1 = cq_filter_ratio newqual
         \<and> cq_qualid newqual1 = cq_qualid newqual \<and> cq_quals newqual1 = cq_quals newqual"
    by (auto simp: check_relation_def split: option.splits if_splits)
  with n show ?thesis by (simp add: resolved_def)
qed

lemma add_parts_Inr:
  "add_parts attnames operators newqual vals = Inr newqual' \<Longrightarrow>
   cq_count newqual' = cq_count newqual \<and> cq_nbfiltered newqual' = cq_nbfiltered newqual
   \<and> cq_filter_ratio newqual' = cq_filter_ratio newqual
   \<and> cq_qualid newqual' = cq_qualid newqual
   \<and> (\<exists>parts. cq_quals newqual' = cq_quals newqual @ parts
               \<and> map rq_eval_type parts = map eval_type vals)"
proof (induction vals arbitrary: newqual)
  case Nil
  then show ?case by simp
next
  case (Cons v vs)
  then obtain newqual1 where
    s: "add_part attnames operators newqual v = Inr newqual1"
    and r: "add_parts attnames operators newqual1 vs = Inr newqual'"
    by (auto split: sum.splits)
  from add_part_Inr[OF s] obtain part where
    f1: "cq_count newqual1 = cq_count newqual" "cq_nbfiltered newqual1 = cq_nbfiltered newqual"
      "cq_filter_ratio newqual1 = cq_filter_ratio newqual" "cq_qualid newqual1 = cq_qualid newqual"
    and p1: "cq_quals newqual1 = cq_quals newqual @ [part]" "rq_eval_type part = eval_type v"
    by blast
  from Cons.IH[OF r] obtain parts where
    f2: "cq_count newqual' = cq_count newqual1" "cq_nbfiltered newqual' = cq_nbfiltered newqual1"
      "cq_filter_ratio newqual' = cq_filter_ratio newqual1" "cq_qualid newqual' = cq_qualid newqual1"
    and p2: "cq_quals newqual' = cq_quals newqual1 @ parts"
      "map rq_eval_type parts = map eval_type vs"
    by blast
  have "cq_quals newqual' = cq_quals newqual @ (part # parts)
        \<and> map rq_eval_type (part # parts) = map eval_type (v # vs)"
    using p1 p2 by simp
  then show ?case using f1 f2 by metis
qed

lemma compose_row_Inr:
  assumes "compose_row attribute attnames operators row = Inr newqual"
  shows "cq_count newqual = row_count row \<and> cq_nbfiltered newqual = row_nbfiltered row
         \<and> cq_filter_ratio newqual = row_filter_ratio row \<and> cq_qualid newqual = row_qualid row
         \<and> (\<exists>values. row_attrs row attribute = Some (QList values)
               \<and> map rq_eval_type (cq_quals newqual)
                   = map eval_type (filter (\<lambda>v. relid v \<noteq> ''0'') values))"
proof -
  from assms obtain rv vs where
    rv: "row_attrs row attribute = Some rv" and vs: "relevant rv = Inr vs"
    and a: "add_parts attnames operators (new_ComposedQual row) vs = Inr newqual"
    by (auto simp: compose_row_def split: option.splits sum.splits)
  from vs obtain vals where
    l: "rv = QList vals" and f: "vs = filter (\<lambda>v. relid v \<noteq> ''0'') vals"
    by (cases rv) auto
  from add_parts_Inr[OF a] rv l f show ?thesis
    by (auto simp: new_ComposedQual_def)
qed

lemma compose_rows_Inr:
  "compose_rows attribute attnames operators quallist new_qual_list = Inr out \<longleftrightarrow>
   (\<exists>new. out = new_qual_list @ new
          \<and> map (compose_row attribute attnames operators) quallist = map Inr new)"
proof (induction quallist arbitrary: new_qual_list)
  case Nil
  then show ?case by auto
next
  case (Cons row quallist)
  show ?case
  proof (cases "compose_row attribute attnames operators row")
    case (Inl e)
    then show ?thesis by (auto simp: map_eq_Cons_conv)
  next
    case (Inr newqual)
    then show ?thesis using Cons.IH[of "new_qual_list @ [newqual]"]
      by (auto simp: map_eq_Cons_conv)
  qed
qed

lemma resolve_quals_Sequence:
  "resolve_quals conn (Sequence quallist) attribute
     = (case collect attribute quallist ({}, {}) of
          Inl e \<Rightarrow> (conn, Inl e)
        | Inr (operator_to_look, attname_to_look) \<Rightarrow>
            (case lookup_catalogs conn operator_to_look attname_to_look of
               (operators, attnames, conn') \<Rightarrow>
                 (conn', compose_rows attribute attnames operators quallist [])))"
  by (simp add: resolve_quals_def split: sum.splits prod.splits)

lemma resolve_quals_Iterator:
  "resolve_quals conn (Iterator quallist) attribute
     = (case collect attribute quallist ({}, {}) of
          Inl e \<Rightarrow> (conn, Inl e)
        | Inr (operator_to_look, attname_to_look) \<Rightarrow>
            (case lookup_catalogs conn operator_to_look attname_to_look of
               (operators, attnames, conn') \<Rightarrow> (conn', Inr [])))"
  by (simp add: resolve_quals_def split: sum.splits prod.splits)

lemma resolve_quals_Inr:
  assumes "resolve_quals conn (Sequence quallist) attribute = (conn', Inr out)"
  shows "\<exists>operators attnames.
           map (compose_row attribute attnames operators) quallist = map Inr out"
proof -
  from assms obtain s where "collect attribute quallist ({}, {}) = Inr s"
    by (cases "collect attribute quallist ({}, {})") (auto simp: resolve_quals_Sequence)
  with assms obtain operators attnames where
    "compose_rows attribute attnames operators quallist [] = Inr out"
    by (cases s) (auto simp: resolve_quals_Sequence split: prod.splits)
  then show ?thesis using compose_rows_Inr[of attribute attnames operators quallist "[]" out]
    by auto
qed

text \<open>
  Claim C4, as amended. Whenever \<open>resolve_quals\<close> succeeds on a sequence of rows (an
  iterable that each of the two loops traverses in full, such as a list), the list it
  returns has exactly one \<open>ComposedQual\<close> per row, and the \<open>i\<close>-th of them is built from
  the \<open>i\<close>-th row: it is what one turn of the loop makes of that row with the resolved
  catalogs, it carries the count, the filtered count, the filter ratio and the qual id of
  that row, and its parts are, in order, the references of that row whose relation is not
  \<open>'0'\<close>.
\<close>

theorem resolve_quals_one_per_row:
  assumes "resolve_quals conn (Sequence quallist) attribute = (conn', Inr new_qual_list)"
  shows "length new_qual_list = length quallist
         \<and> (\<exists>operators attnames. \<forall>i<length quallist.
               compose_row attribute attnames operators (quallist ! i) = Inr (new_qual_list ! i))
         \<and> (\<forall>i<length quallist.
               cq_count (new_qual_list ! i) = row_count (quallist ! i)
               \<and> cq_nbfiltered (new_qual_list ! i) = row_nbfiltered (quallist ! i)
               \<and> cq_filter_ratio (new_qual_list ! i) = row_filter_ratio (quallist ! i)
               \<and> cq_qualid (new_qual_list ! i) = row_qualid (quallist ! i)
               \<and> (\<exists>values. row_attrs (quallist ! i) attribute = Some (QList values)
                     \<and> map rq_eval_type (cq_quals (new_qual_list ! i))
                         = map eval_type (filter (\<lambda>v. relid v \<noteq> ''0'') values)))"
proof -
  from resolve_quals_Inr[OF assms] obtain operators attnames where
    m: "map (compose_row attribute attnames operators) quallist = map Inr new_qual_list"
    by blast
  then have len: "length new_qual_list = length quallist"
    using length_map by metis
  have nth: "compose_row attribute attnames operators (quallist ! i) = Inr (new_qual_list ! i)"
    if "i < length quallist" for i
  proof -
    have "map (compose_row attribute attnames operators) quallist ! i
            = map Inr new_qual_list ! i"
      using m by simp
    then show ?thesis using that len by simp
  qed
  show ?thesis
  proof (intro conjI)
    show "length new_qual_list = length quallist" by (rule len)
    show "\<exists>operators attnames. \<forall>i<length quallist.
            compose_row attribute attnames operators (quallist ! i) = Inr (new_qual_list ! i)"
      using nth by blast
    show "\<forall>i<length quallist.
               cq_count (new_qual_list ! i) = row_count (quallist ! i)
               \<and> cq_nbfiltered (new_qual_list ! i) = row_nbfiltered (quallist ! i)
               \<and> cq_filter_ratio (new_qual_list ! i) = row_filter_ratio (quallist ! i)
               \<and> cq_qualid (new_qual_list ! i) = row_qualid (quallist ! i)
               \<and> (\<exists>values. row_attrs (quallist ! i) attribute = Some (QList values)
                     \<and> map rq_eval_type (cq_quals (new_qual_list ! i))
                         = map eval_type (filter (\<lambda>v. relid v \<noteq> ''0'') values))"
      using nth compose_row_Inr by blast
  qed
qed

lemma ex_lookup_catalogs:
  "ops \<noteq> {} \<Longrightarrow> atts \<noteq> {} \<Longrightarrow>
   lookup_catalogs ex_conn ops atts
     = (Some ex_operators, Some ex_attnames,
        ex_conn\<lparr>executed := [RESOLVE_OPNAME ops, RESOLVE_ATTNAME atts]\<rparr>)"
  by (simp add: lookup_catalogs_def execute_opname_def execute_attname_def ex_conn_def)

lemma ex_compose_row_ab:
  "compose_row ''quals'' (Some ex_attnames) (Some ex_operators)
     (ex_row (QList [ex_ref_a, ex_ref_b]) qualid)
     = Inr ((ex_composed [ex_qual_a, ex_qual_b])\<lparr>cq_qualid := Some qualid\<rparr>)"
  by (simp add: compose_row_def ex_row_def new_ComposedQual_def add_part_def subscript_def
      check_relation_def resolved_def ex_attnames_def ex_operators_def ex_ref_a_def ex_ref_b_def
      ex_composed_def ex_qual_a_def ex_qual_b_def)

lemma ex_compose_row_c:
  "compose_row ''quals'' (Some ex_attnames) (Some ex_operators)
     (ex_row (QList [ex_ref_c]) qualid)
     = Inr ((ex_composed [ex_qual_c])\<lparr>cq_qualid := Some qualid, cq_relname := Some ''u'',
                                        cq_table_liverows := Some 20\<rparr>)"
  by (simp add: compose_row_def ex_row_def new_ComposedQual_def add_part_def subscript_def
      check_relation_def resolved_def ex_attnames_def ex_operators_def ex_ref_c_def
      ex_composed_def ex_qual_c_def)

lemma ex_resolve_quals_two_rows:
  "\<exists>conn'. resolve_quals ex_conn
      (Sequence [ex_row (QList [ex_ref_a, ex_ref_b]) 7, ex_row (QList [ex_ref_c]) 8]) ''quals''
     = (conn', Inr [(ex_composed [ex_qual_a, ex_qual_b])\<lparr>cq_qualid := Some 7\<rparr>,
                    (ex_composed [ex_qual_c])\<lparr>cq_qualid := Some 8, cq_relname := Some ''u'',
                                               cq_table_liverows := Some 20\<rparr>])"
proof -
  let ?rows = "[ex_row (QList [ex_ref_a, ex_ref_b]) 7, ex_row (QList [ex_ref_c]) 8]"
  obtain ops atts where s: "fold look [ex_ref_a, ex_ref_b, ex_ref_c] ({}, {}) = (ops, atts)"
    by fastforce
  then have ne: "ops \<noteq> {}" "atts \<noteq> {}"
    by (auto simp: look_def)
  have c: "collect ''quals'' ?rows ({}, {}) = Inr (ops, atts)"
    using s by (simp add: ex_row_def)
  have cr: "compose_rows ''quals'' (Some ex_attnames) (Some ex_operators) ?rows []
          = Inr [(ex_composed [ex_qual_a, ex_qual_b])\<lparr>cq_qualid := Some 7\<rparr>,
                 (ex_composed [ex_qual_c])\<lparr>cq_qualid := Some 8, cq_relname := Some ''u'',
                                            cq_table_liverows := Some 20\<rparr>]"
    by (simp add: ex_compose_row_ab ex_compose_row_c)
  show ?thesis
    unfolding resolve_quals_Sequence c
    by (simp only: sum.case prod.case ex_lookup_catalogs[OF ne] cr) (rule exI, rule refl)
qed

text \<open>
  The theorem at two rows: the first row refers to the columns \<open>a\<close> and \<open>b\<close> of \<open>s.t\<close>, the
  second to the column \<open>c\<close> of \<open>s.u\<close>. The result has the two composed quals, in the order
  of the rows.
\<close>

theorem resolve_quals_one_per_row_witness:
  "\<exists>conn' q1 q2.
     resolve_quals ex_conn
       (Sequence [ex_row (QList [ex_ref_a, ex_ref_b]) 7, ex_row (QList [ex_ref_c]) 8]) ''quals''
       = (conn', Inr [q1, q2])
     \<and> cq_qualid q1 = Some 7 \<and> cq_qualid q2 = Some 8
     \<and> map rq_eval_type (cq_quals q1) = [Some ''f'', Some ''i'']
     \<and> map rq_eval_type (cq_quals q2) = [Some ''f'']"
proof -
  let ?rows = "[ex_row (QList [ex_ref_a, ex_ref_b]) 7, ex_row (QList [ex_ref_c]) 8]"
  from ex_resolve_quals_two_rows obtain conn' q1 q2 where
    r: "resolve_quals ex_conn (Sequence ?rows) ''quals'' = (conn', Inr [q1, q2])"
    by blast
  note th = resolve_quals_one_per_row[OF r]
  from th have i: "\<forall>i<2. cq_qualid ([q1, q2] ! i) = row_qualid (?rows ! i)
      \<and> (\<exists>vals. row_attrs (?rows ! i) ''quals'' = Some (QList vals)
            \<and> map rq_eval_type (cq_quals ([q1, q2] ! i))
                = map eval_type (filter (\<lambda>v. relid v \<noteq> ''0'') vals))"
    by simp
  from i[rule_format, of 0] have "cq_qualid q1 = Some 7
      \<and> map rq_eval_type (cq_quals q1) = [Some ''f'', Some ''i'']"
    by (auto simp: ex_row_def ex_ref_a_def ex_ref_b_def)
  moreover from i[rule_format, of 1] have "cq_qualid q2 = Some 8
      \<and> map rq_eval_type (cq_quals q2) = [Some ''f'']"
    by (auto simp: ex_row_def ex_ref_c_def)
  ultimately have "resolve_quals ex_conn (Sequence ?rows) ''quals'' = (conn', Inr [q1, q2])
      \<and> cq_qualid q1 = Some 7 \<and> cq_qualid q2 = Some 8
      \<and> map rq_eval_type (cq_quals q1) = [Some ''f'', Some ''i'']
      \<and> map rq_eval_type (cq_quals q2) = [Some ''f'']"
    using r by simp
  then show ?thesis
    by (intro exI[of _ conn'] exI[of _ q1] exI[of _ q2])
qed

text \<open>
  Claim C4 as the specification states it, for every iterable, fails: on a one-shot
  iterator that gives one row, the first loop takes the row, the second loop finds nothing
  left, and \<open>resolve_quals\<close> succeeds with the empty list, which has no element for the
  row.
\<close>

theorem resolve_quals_one_shot_counterexample:
  "fst (iterate (Iterator [ex_row (QList [ex_ref_a]) 7])) = [ex_row (QList [ex_ref_a]) 7]
   \<and> snd (resolve_quals ex_conn (Iterator [ex_row (QList [ex_ref_a]) 7]) ''quals'') = Inr []"
proof -
  obtain ops atts where s: "fold look [ex_ref_a] ({}, {}) = (ops, atts)"
    by fastforce
  then have "collect ''quals'' [ex_row (QList [ex_ref_a]) 7] ({}, {}) = Inr (ops, atts)"
    by (simp add: ex_row_def)
  then have "snd (resolve_quals ex_conn (Iterator [ex_row (QList [ex_ref_a]) 7]) ''quals'')
               = Inr []"
    by (simp add: resolve_quals_Iterator split: prod.splits)
  then show ?thesis by simp
qed

subsection \<open>Appending a part to a composed qual\<close>

lemma subscript_Inr: "subscript d k = Inr x \<longleftrightarrow> (\<exists>m. d = Some m \<and> m k = Some x)"
  by (auto simp: subscript_def split: option.splits)














subsection \<open>A row whose qual attribute is a single reference\<close>

lemma compose_row_QDict:
  "row_attrs row attribute = Some (QDict v) \<Longrightarrow>
   compose_row attribute attnames operators row = Inl TypeError"
  by (simp add: compose_row_def)

text \<open>
  Claim C3 does not hold of the code. The first loop takes a single reference as the list
  of that one reference, but the second loop raises \<open>TypeError\<close> on it, whatever the
  catalogs hold: \<open>resolve_quals\<close> returns no list for a list \<open>quallist\<close> that has a row
  whose qual attribute is a single reference.
\<close>

theorem resolve_quals_single_reference_raises:
  assumes "row \<in> set quallist" and "row_attrs row attribute = Some (QDict v)"
  shows "as_list (QDict v) = as_list (QList [v])
         \<and> compose_row attribute attnames operators row = Inl TypeError
         \<and> (\<forall>out. snd (resolve_quals conn (Sequence quallist) attribute) \<noteq> Inr out)"
proof (intro conjI allI)
  show "as_list (QDict v) = as_list (QList [v])" by simp
  show "compose_row attribute attnames operators row = Inl TypeError"
    using assms(2) by (rule compose_row_QDict)
  show "snd (resolve_quals conn (Sequence quallist) attribute) \<noteq> Inr out" for out
  proof
    assume "snd (resolve_quals conn (Sequence quallist) attribute) = Inr out"
    then have "resolve_quals conn (Sequence quallist) attribute
                 = (fst (resolve_quals conn (Sequence quallist) attribute), Inr out)"
      by (metis prod.collapse)
    from resolve_quals_Inr[OF this] obtain ops atts where
      m: "map (compose_row attribute atts ops) quallist = map Inr out"
      by blast
    have "compose_row attribute atts ops row \<in> set (map (compose_row attribute atts ops) quallist)"
      using assms(1) by simp
    then have "compose_row attribute atts ops row \<in> Inr ` set out"
      using m by simp
    then show False
      using compose_row_QDict[OF assms(2), of atts ops] by auto
  qed
qed

text \<open>
  The theorem at the row whose \<open>quals\<close> is the single reference to column \<open>a\<close> of \<open>s.t\<close>:
  the first loop collects the same identifiers as for the list of that reference, the
  second loop raises \<open>TypeError\<close>, while the list of that reference gives one composed qual.
\<close>

theorem resolve_quals_single_reference_raises_witness:
  "collect ''quals'' [ex_row (QDict ex_ref_a) 7] ({}, {})
     = collect ''quals'' [ex_row (QList [ex_ref_a]) 7] ({}, {})
   \<and> snd (resolve_quals ex_conn (Sequence [ex_row (QDict ex_ref_a) 7]) ''quals'') = Inl TypeError
   \<and> snd (resolve_quals ex_conn (Sequence [ex_row (QList [ex_ref_a]) 7]) ''quals'')
       = Inr [ex_composed [ex_qual_a]]"
proof -
  obtain ops atts where s: "fold look [ex_ref_a] ({}, {}) = (ops, atts)"
    by fastforce
  then have ne: "ops \<noteq> {}" "atts \<noteq> {}"
    by (auto simp: look_def)
  have cd: "collect ''quals'' [ex_row (QDict ex_ref_a) 7] ({}, {}) = Inr (ops, atts)"
    using s by (simp add: ex_row_def)
  have cl: "collect ''quals'' [ex_row (QList [ex_ref_a]) 7] ({}, {}) = Inr (ops, atts)"
    using s by (simp add: ex_row_def)
  have "row_attrs (ex_row (QDict ex_ref_a) 7) ''quals'' = Some (QDict ex_ref_a)"
    by (simp add: ex_row_def)
  from resolve_quals_single_reference_raises
    [of "ex_row (QDict ex_ref_a) 7" "[ex_row (QDict ex_ref_a) 7]" "''quals''" ex_ref_a
       "Some ex_attnames" "Some ex_operators" ex_conn, OF _ this]
  have d: "compose_row ''quals'' (Some ex_attnames) (Some ex_operators)
             (ex_row (QDict ex_ref_a) 7) = Inl TypeError"
    by simp
  have l: "compose_row ''quals'' (Some ex_attnames) (Some ex_operators)
             (ex_row (QList [ex_ref_a]) 7) = Inr (ex_composed [ex_qual_a])"
    by (simp add: compose_row_def ex_row_def new_ComposedQual_def add_part_def subscript_def
        check_relation_def resolved_def ex_attnames_def ex_operators_def ex_ref_a_def
        ex_composed_def ex_qual_a_def)
  have "snd (resolve_quals ex_conn (Sequence [ex_row (QDict ex_ref_a) 7]) ''quals'') = Inl TypeError"
    unfolding resolve_quals_Sequence cd
    by (simp only: sum.case prod.case ex_lookup_catalogs[OF ne] compose_rows.simps d snd_conv)
  moreover have "snd (resolve_quals ex_conn (Sequence [ex_row (QList [ex_ref_a]) 7]) ''quals'')
                   = Inr [ex_composed [ex_qual_a]]"
    unfolding resolve_quals_Sequence cl
    by (simp only: sum.case prod.case ex_lookup_catalogs[OF ne] compose_rows.simps l snd_conv
        append_Nil)
  ultimately show ?thesis using cd cl by simp
qed

subsection \<open>The catalog queries of \<open>resolve_quals\<close>\<close>

lemma fold_look:
  "fold look vs s = (fst s \<union> opno ` set vs, snd s \<union> (\<lambda>v. (relid v, attnum v)) ` set vs)"
  by (induction vs arbitrary: s) (auto simp: look_def)

lemma collect_Inr:
  "collect attribute quallist s = Inr (ops, atts) \<Longrightarrow>
   ops = fst s \<union> (\<Union>row\<in>set quallist.
           case row_attrs row attribute of None \<Rightarrow> {} | Some vals \<Rightarrow> opno ` set (as_list vals))
   \<and> atts = snd s \<union> (\<Union>row\<in>set quallist.
           case row_attrs row attribute of None \<Rightarrow> {}
           | Some vals \<Rightarrow> (\<lambda>v. (relid v, attnum v)) ` set (as_list vals))"
proof (induction quallist arbitrary: s)
  case Nil
  then show ?case by auto
next
  case (Cons row quallist)
  then obtain vals where v: "row_attrs row attribute = Some vals"
    and c: "collect attribute quallist (fold look (as_list vals) s) = Inr (ops, atts)"
    by (auto split: option.splits)
  from Cons.IH[OF c] v show ?case
    by (simp add: fold_look Un_assoc)
qed

lemma lookup_catalogs_executed:
  "executed (snd (snd (lookup_catalogs conn ops atts)))
     = executed conn @ (if ops = {} then [] else [RESOLVE_OPNAME ops])
         @ (if atts = {} then [] else [RESOLVE_ATTNAME atts])"
  by (simp add: lookup_catalogs_def execute_opname_def execute_attname_def)

lemma lookup_catalogs_empty:
  "(ops = {} \<longrightarrow> fst (lookup_catalogs conn ops atts) = Some Map.empty)
   \<and> (atts = {} \<longrightarrow> fst (snd (lookup_catalogs conn ops atts)) = Some Map.empty)"
  by (simp add: lookup_catalogs_def execute_opname_def execute_attname_def split: prod.splits)

lemma resolve_quals_conn:
  "fst (resolve_quals conn quallist attribute)
     = (case collect attribute (fst (iterate quallist)) ({}, {}) of
          Inl e \<Rightarrow> conn
        | Inr s \<Rightarrow> snd (snd (lookup_catalogs conn (fst s) (snd s))))"
  by (simp add: resolve_quals_def split: sum.splits prod.splits)

text \<open>
  Claim C8. When the first loop of \<open>resolve_quals\<close> has collected the operator ids
  \<open>operator_to_look\<close> and the attributes \<open>attname_to_look\<close> (each the union over all rows
  the iterable gives to the loop, \<open>fst (iterate quallist)\<close>, and all their references), the
  statements \<open>resolve_quals\<close> issues are: the operator query,
  once and with the whole set, when \<open>operator_to_look\<close> is not empty, then the attribute
  query, once and with the whole set, when \<open>attname_to_look\<close> is not empty, and nothing
  else. For an empty set no query is issued and the mapping stays the empty dictionary. In
  every run \<open>resolve_quals\<close> issues at most two statements.
\<close>

theorem resolve_quals_catalog_queries:
  "(collect attribute (fst (iterate quallist)) ({}, {}) = Inr (operator_to_look, attname_to_look) \<longrightarrow>
      operator_to_look = (\<Union>row\<in>set (fst (iterate quallist)).
          case row_attrs row attribute of None \<Rightarrow> {} | Some vals \<Rightarrow> opno ` set (as_list vals))
      \<and> attname_to_look = (\<Union>row\<in>set (fst (iterate quallist)).
          case row_attrs row attribute of None \<Rightarrow> {}
          | Some vals \<Rightarrow> (\<lambda>v. (relid v, attnum v)) ` set (as_list vals))
      \<and> executed (fst (resolve_quals conn quallist attribute))
          = executed conn
              @ (if operator_to_look = {} then [] else [RESOLVE_OPNAME operator_to_look])
              @ (if attname_to_look = {} then [] else [RESOLVE_ATTNAME attname_to_look])
      \<and> (operator_to_look = {} \<longrightarrow>
            fst (lookup_catalogs conn operator_to_look attname_to_look) = Some Map.empty)
      \<and> (attname_to_look = {} \<longrightarrow>
            fst (snd (lookup_catalogs conn operator_to_look attname_to_look)) = Some Map.empty))
   \<and> length (executed (fst (resolve_quals conn quallist attribute))) \<le> length (executed conn) + 2"
proof (intro conjI impI)
  assume c: "collect attribute (fst (iterate quallist)) ({}, {}) = Inr (operator_to_look, attname_to_look)"
  from collect_Inr[OF c]
  show "operator_to_look = (\<Union>row\<in>set (fst (iterate quallist)).
          case row_attrs row attribute of None \<Rightarrow> {} | Some vals \<Rightarrow> opno ` set (as_list vals))"
    and "attname_to_look = (\<Union>row\<in>set (fst (iterate quallist)).
          case row_attrs row attribute of None \<Rightarrow> {}
          | Some vals \<Rightarrow> (\<lambda>v. (relid v, attnum v)) ` set (as_list vals))"
    by simp_all
  show "executed (fst (resolve_quals conn quallist attribute))
          = executed conn
              @ (if operator_to_look = {} then [] else [RESOLVE_OPNAME operator_to_look])
              @ (if attname_to_look = {} then [] else [RESOLVE_ATTNAME attname_to_look])"
    by (simp only: resolve_quals_conn c sum.case fst_conv snd_conv lookup_catalogs_executed)
next
  assume "operator_to_look = {}"
  then show "fst (lookup_catalogs conn operator_to_look attname_to_look) = Some Map.empty"
    using lookup_catalogs_empty by blast
next
  assume "attname_to_look = {}"
  then show "fst (snd (lookup_catalogs conn operator_to_look attname_to_look)) = Some Map.empty"
    using lookup_catalogs_empty by blast
next
  show "length (executed (fst (resolve_quals conn quallist attribute)))
          \<le> length (executed conn) + 2"
    by (cases "collect attribute (fst (iterate quallist)) ({}, {})")
      (simp_all add: resolve_quals_conn lookup_catalogs_executed)
qed

text \<open>
  The theorem at the two rows on \<open>s.t\<close> and \<open>s.u\<close>, whose five identifiers are looked up by
  two statements, and at a row without references, for which no statement is issued.
\<close>

theorem resolve_quals_catalog_queries_witness:
  "executed (fst (resolve_quals ex_conn
       (Sequence [ex_row (QList [ex_ref_a, ex_ref_b]) 7, ex_row (QList [ex_ref_c]) 8]) ''quals''))
     = [RESOLVE_OPNAME {''96'', ''1754''},
        RESOLVE_ATTNAME {(''16384'', ''1''), (''16384'', ''2''), (''16390'', ''1'')}]
   \<and> executed (fst (resolve_quals ex_conn (Iterator [ex_row (QList []) 7]) ''quals'')) = []"
proof -
  have c1: "collect ''quals'' [ex_row (QList [ex_ref_a, ex_ref_b]) 7, ex_row (QList [ex_ref_c]) 8]
              ({}, {})
            = Inr ({''96'', ''1754''},
                   {(''16384'', ''1''), (''16384'', ''2''), (''16390'', ''1'')})"
    by (auto simp: ex_row_def look_def ex_ref_a_def ex_ref_b_def ex_ref_c_def)
  have c2: "collect ''quals'' [ex_row (QList []) 7] ({}, {}) = Inr ({}, {})"
    by (simp add: ex_row_def)
  have e: "executed ex_conn = []"
    by (simp add: ex_conn_def)
  from resolve_quals_catalog_queries
    [where conn = ex_conn and attribute = "''quals''"
       and quallist = "Sequence [ex_row (QList [ex_ref_a, ex_ref_b]) 7, ex_row (QList [ex_ref_c]) 8]"
       and operator_to_look = "{''96'', ''1754''}"
       and attname_to_look = "{(''16384'', ''1''), (''16384'', ''2''), (''16390'', ''1'')}"]
    c1 e
  have "executed (fst (resolve_quals ex_conn
       (Sequence [ex_row (QList [ex_ref_a, ex_ref_b]) 7, ex_row (QList [ex_ref_c]) 8]) ''quals''))
     = [RESOLVE_OPNAME {''96'', ''1754''},
        RESOLVE_ATTNAME {(''16384'', ''1''), (''16384'', ''2''), (''16390'', ''1'')}]"
    by simp
  moreover from resolve_quals_catalog_queries
    [where conn = ex_conn and attribute = "''quals''" and quallist = "Iterator [ex_row (QList []) 7]"
       and operator_to_look = "{}" and attname_to_look = "{}"]
    c2 e
  have "executed (fst (resolve_quals ex_conn (Iterator [ex_row (QList []) 7]) ''quals'')) = []"
    by simp
  ultimately show ?thesis by simp
qed

subsection \<open>The indexes proposed for a composed qual\<close>

lemma by_am_append_map_of:
  "map_of (by_am_append am qual by_am)
     = (map_of by_am)(am \<mapsto> (case map_of by_am am of None \<Rightarrow> [] | Some quals \<Rightarrow> quals) @ [qual])"
  by (induction am qual by_am rule: by_am_append.induct) (auto simp: fun_upd_twist)

lemma by_am_append_keys:
  "map fst (by_am_append am qual by_am)
     = (if am \<in> set (map fst by_am) then map fst by_am else map fst by_am @ [am])"
  by (induction am qual by_am rule: by_am_append.induct) auto

lemma by_am_append_distinct:
  "distinct (map fst by_am) \<Longrightarrow> distinct (map fst (by_am_append am qual by_am))"
  by (simp add: by_am_append_keys)

lemma group_names_distinct:
  "distinct (map fst by_am) \<Longrightarrow>
   distinct (map fst (fold (\<lambda>am. by_am_append am qual) names by_am))"
  by (induction names arbitrary: by_am) (simp_all add: by_am_append_distinct)

lemma group_names_map_of:
  "distinct names \<Longrightarrow>
   map_of (fold (\<lambda>am. by_am_append am qual) names by_am) am
     = (if am \<in> set names
        then Some ((case map_of by_am am of None \<Rightarrow> [] | Some quals \<Rightarrow> quals) @ [qual])
        else map_of by_am am)"
proof (induction names arbitrary: by_am)
  case Nil
  then show ?case by simp
next
  case (Cons n names)
  then have d: "distinct names" and n: "n \<notin> set names" by simp_all
  show ?case
    using Cons.IH[OF d, of "by_am_append n qual by_am"] n
    by (auto simp: by_am_append_map_of)
qed

text \<open>
  What the first loop of \<open>possible_indexes\<close> keeps true: the keys of \<open>by_am\<close> are distinct,
  and the list of a key is the non-empty list of the parts seen so far that support it.
\<close>

lemma group_qual_invariant:
  assumes "distinct (map fst by_am)"
    and "\<forall>am. map_of by_am am
           = (if filter (\<lambda>q. am \<in> set (rq_indexam_names q)) seen = [] then None
              else Some (filter (\<lambda>q. am \<in> set (rq_indexam_names q)) seen))"
    and "distinct (rq_indexam_names qual)"
  shows "distinct (map fst (group_qual qual by_am))
         \<and> (\<forall>am. map_of (group_qual qual by_am) am
               = (if filter (\<lambda>q. am \<in> set (rq_indexam_names q)) (seen @ [qual]) = [] then None
                  else Some (filter (\<lambda>q. am \<in> set (rq_indexam_names q)) (seen @ [qual]))))"
  using assms by (auto simp: group_qual_def group_names_distinct group_names_map_of)

lemma fold_group_qual_invariant:
  "distinct (map fst by_am) \<Longrightarrow>
   \<forall>am. map_of by_am am
           = (if filter (\<lambda>q. am \<in> set (rq_indexam_names q)) seen = [] then None
              else Some (filter (\<lambda>q. am \<in> set (rq_indexam_names q)) seen)) \<Longrightarrow>
   \<forall>qual\<in>set quals. distinct (rq_indexam_names qual) \<Longrightarrow>
   distinct (map fst (fold group_qual quals by_am))
   \<and> (\<forall>am. map_of (fold group_qual quals by_am) am
         = (if filter (\<lambda>q. am \<in> set (rq_indexam_names q)) (seen @ quals) = [] then None
            else Some (filter (\<lambda>q. am \<in> set (rq_indexam_names q)) (seen @ quals))))"
proof (induction quals arbitrary: by_am seen)
  case Nil
  then show ?case by simp
next
  case (Cons qual quals)
  have q: "distinct (rq_indexam_names qual)"
    and qs: "\<forall>qual\<in>set quals. distinct (rq_indexam_names qual)"
    using Cons.prems(3) by simp_all
  from group_qual_invariant[OF Cons.prems(1) Cons.prems(2) q]
  have "distinct (map fst (group_qual qual by_am))"
    and "\<forall>am. map_of (group_qual qual by_am) am
           = (if filter (\<lambda>q. am \<in> set (rq_indexam_names q)) (seen @ [qual]) = [] then None
              else Some (filter (\<lambda>q. am \<in> set (rq_indexam_names q)) (seen @ [qual])))"
    by blast+
  from Cons.IH[OF this qs] show ?case by simp
qed

lemma group_by_am_invariant:
  assumes "\<forall>qual\<in>set quals. distinct (rq_indexam_names qual)"
  shows "distinct (map fst (group_by_am quals))"
    and "map_of (group_by_am quals) am
           = (if filter (\<lambda>q. am \<in> set (rq_indexam_names q)) quals = [] then None
              else Some (filter (\<lambda>q. am \<in> set (rq_indexam_names q)) quals))"
  using fold_group_qual_invariant[of "[]" "[]" quals] assms
  by (simp_all add: group_by_am_def)

lemma make_indexes_Inr:
  "\<forall>(am, quals)\<in>set by_am. quals \<noteq> [] \<Longrightarrow>
   make_indexes by_am indexes
     = Inr (indexes @ map (\<lambda>(am, quals).
              \<lparr>hi_nspname = rq_nspname (hd quals), hi_relname = rq_relname (hd quals),
               hi_qual = Some quals, hi_amname = am, hi_name = None\<rparr>) by_am)"
proof (induction by_am arbitrary: indexes)
  case Nil
  then show ?case by simp
next
  case (Cons item by_am)
  obtain am quals where i: "item = (am, quals)" by (cases item)
  with Cons.prems obtain base rest where q: "quals = base # rest"
    by (cases quals) auto
  from Cons.prems have "\<forall>(am, quals)\<in>set by_am. quals \<noteq> []" by simp
  from Cons.IH[OF this] i q show ?case by simp
qed

lemma possible_indexes_grouped:
  assumes d: "\<forall>qual\<in>set (cq_quals composed_qual). distinct (rq_indexam_names qual)"
  shows "\<exists>indexes. possible_indexes composed_qual = Inr indexes
          \<and> distinct (map hi_amname indexes)
          \<and> set (map hi_amname indexes)
              = (\<Union>qual\<in>set (cq_quals composed_qual). set (rq_indexam_names qual))
          \<and> (\<forall>index\<in>set indexes. \<exists>base rest.
                filter (\<lambda>qual. hi_amname index \<in> set (rq_indexam_names qual))
                  (cq_quals composed_qual) = base # rest
                \<and> hi_qual index = Some (base # rest)
                \<and> hi_nspname index = rq_nspname base \<and> hi_relname index = rq_relname base)"
proof -
  define quals where "quals = cq_quals composed_qual"
  define by_am where "by_am = group_by_am quals"
  define supporting where
    "supporting = (\<lambda>am. filter (\<lambda>qual. am \<in> set (rq_indexam_names qual)) quals)"
  define mk where "mk = (\<lambda>(am, quals).
      \<lparr>hi_nspname = rq_nspname (hd quals), hi_relname = rq_relname (hd quals),
       hi_qual = Some (quals :: 'a ResolvedQual list), hi_amname = am, hi_name = None\<rparr>)"
  have dq: "\<forall>qual\<in>set quals. distinct (rq_indexam_names qual)"
    using d by (simp add: quals_def)
  have keys: "distinct (map fst by_am)"
    unfolding by_am_def by (rule group_by_am_invariant(1)[OF dq])
  have lookup: "map_of by_am am = (if supporting am = [] then None else Some (supporting am))"
    for am
    unfolding by_am_def supporting_def by (rule group_by_am_invariant(2)[OF dq])
  have item: "l = supporting am \<and> l \<noteq> []" if "(am, l) \<in> set by_am" for am l
  proof -
    from that keys have "map_of by_am am = Some l" by simp
    then show ?thesis using lookup[of am] by (auto split: if_splits)
  qed
  then have "\<forall>(am, l)\<in>set by_am. l \<noteq> []" by auto
  from make_indexes_Inr[OF this, of "[]"]
  have res: "possible_indexes composed_qual = Inr (map mk by_am)"
    by (simp add: possible_indexes_def by_am_def quals_def mk_def)
  have am: "map hi_amname (map mk by_am) = map fst by_am"
    by (auto simp: mk_def)
  have names: "set (map fst by_am) = (\<Union>qual\<in>set quals. set (rq_indexam_names qual))"
  proof -
    have "set (map fst by_am) = dom (map_of by_am)"
      by (simp add: dom_map_of_conv_image_fst)
    also have "\<dots> = {am. supporting am \<noteq> []}"
      using lookup by (auto simp: dom_def)
    also have "\<dots> = (\<Union>qual\<in>set quals. set (rq_indexam_names qual))"
      by (auto simp: supporting_def filter_empty_conv)
    finally show ?thesis .
  qed
  have members: "\<exists>base rest. supporting (hi_amname index) = base # rest
      \<and> hi_qual index = Some (base # rest)
      \<and> hi_nspname index = rq_nspname base \<and> hi_relname index = rq_relname base"
    if "index \<in> set (map mk by_am)" for index
  proof -
    from that obtain am l where i: "(am, l) \<in> set by_am" and m: "index = mk (am, l)"
      by auto
    from item[OF i] have "l = supporting am" and "l \<noteq> []" by blast+
    then obtain base rest where "supporting am = base # rest" and "l = base # rest"
      by (metis neq_Nil_conv)
    with m show ?thesis by (simp add: mk_def)
  qed
  have 1: "distinct (map hi_amname (map mk by_am))"
    by (simp only: am keys)
  have 2: "set (map hi_amname (map mk by_am))
             = (\<Union>qual\<in>set (cq_quals composed_qual). set (rq_indexam_names qual))"
    using names by (simp only: am quals_def)
  have 3: "\<forall>index\<in>set (map mk by_am). \<exists>base rest.
                filter (\<lambda>qual. hi_amname index \<in> set (rq_indexam_names qual))
                  (cq_quals composed_qual) = base # rest
                \<and> hi_qual index = Some (base # rest)
                \<and> hi_nspname index = rq_nspname base \<and> hi_relname index = rq_relname base"
    using members unfolding supporting_def quals_def by blast
  from res 1 2 3 show ?thesis by blast
qed

text \<open>
  Claim C7, as amended. For every composed qual whose parts each name an access method at
  most once (no name is twice in the list of a part), \<open>possible_indexes\<close> returns one
  \<open>HypoIndex\<close> per access method that some part supports and none for any other method;
  the index of a method holds exactly the parts that support the method, in their original
  order, and has the namespace and the relation of the first of them. In particular a
  composed qual of two parts, the first supporting btree only and the second brin only,
  gives two indexes, the btree index with the first part only and the brin index with the
  second part only.
\<close>

theorem possible_indexes_one_per_access_method:
  "((\<forall>qual\<in>set (cq_quals composed_qual). distinct (rq_indexam_names qual)) \<longrightarrow>
      (\<exists>indexes. possible_indexes composed_qual = Inr indexes
          \<and> distinct (map hi_amname indexes)
          \<and> set (map hi_amname indexes)
              = (\<Union>qual\<in>set (cq_quals composed_qual). set (rq_indexam_names qual))
          \<and> (\<forall>index\<in>set indexes. \<exists>base rest.
                filter (\<lambda>qual. hi_amname index \<in> set (rq_indexam_names qual))
                  (cq_quals composed_qual) = base # rest
                \<and> hi_qual index = Some (base # rest)
                \<and> hi_nspname index = rq_nspname base \<and> hi_relname index = rq_relname base)))
   \<and> (rq_indexam_names qa = [''btree''] \<and> rq_indexam_names qb = [''brin'']
        \<and> cq_quals cq = [qa, qb] \<longrightarrow>
        possible_indexes cq
          = Inr [\<lparr>hi_nspname = rq_nspname qa, hi_relname = rq_relname qa, hi_qual = Some [qa],
                  hi_amname = ''btree'', hi_name = None\<rparr>,
                 \<lparr>hi_nspname = rq_nspname qb, hi_relname = rq_relname qb, hi_qual = Some [qb],
                  hi_amname = ''brin'', hi_name = None\<rparr>])"
proof (intro conjI impI)
  assume "\<forall>qual\<in>set (cq_quals composed_qual). distinct (rq_indexam_names qual)"
  then show "\<exists>indexes. possible_indexes composed_qual = Inr indexes
          \<and> distinct (map hi_amname indexes)
          \<and> set (map hi_amname indexes)
              = (\<Union>qual\<in>set (cq_quals composed_qual). set (rq_indexam_names qual))
          \<and> (\<forall>index\<in>set indexes. \<exists>base rest.
                filter (\<lambda>qual. hi_amname index \<in> set (rq_indexam_names qual))
                  (cq_quals composed_qual) = base # rest
                \<and> hi_qual index = Some (base # rest)
                \<and> hi_nspname index = rq_nspname base \<and> hi_relname index = rq_relname base)"
    by (rule possible_indexes_grouped)
next
  assume "rq_indexam_names qa = [''btree''] \<and> rq_indexam_names qb = [''brin'']
            \<and> cq_quals cq = [qa, qb]"
  then show "possible_indexes cq
          = Inr [\<lparr>hi_nspname = rq_nspname qa, hi_relname = rq_relname qa, hi_qual = Some [qa],
                  hi_amname = ''btree'', hi_name = None\<rparr>,
                 \<lparr>hi_nspname = rq_nspname qb, hi_relname = rq_relname qb, hi_qual = Some [qb],
                  hi_amname = ''brin'', hi_name = None\<rparr>]"
    by (simp add: possible_indexes_def group_by_am_def group_qual_def)
qed

text \<open>
  The theorem at the composed qual on \<open>s.t\<close> whose part on \<open>a\<close> supports btree and whose
  part on \<open>b\<close> supports brin.
\<close>

theorem possible_indexes_one_per_access_method_witness:
  "possible_indexes (ex_composed [ex_qual_a, ex_qual_b])
     = Inr [\<lparr>hi_nspname = ''s'', hi_relname = ''t'', hi_qual = Some [ex_qual_a],
             hi_amname = ''btree'', hi_name = None\<rparr>,
            \<lparr>hi_nspname = ''s'', hi_relname = ''t'', hi_qual = Some [ex_qual_b],
             hi_amname = ''brin'', hi_name = None\<rparr>]
   \<and> (\<exists>indexes. possible_indexes (ex_composed [ex_qual_a, ex_qual_b]) = Inr indexes
         \<and> set (map hi_amname indexes) = {''btree'', ''brin''})"
proof -
  note th = possible_indexes_one_per_access_method
    [where composed_qual = "ex_composed [ex_qual_a, ex_qual_b]"
       and cq = "ex_composed [ex_qual_a, ex_qual_b]" and qa = ex_qual_a and qb = ex_qual_b]
  have n: "rq_indexam_names ex_qual_a = [''btree'']" "rq_indexam_names ex_qual_b = [''brin'']"
    "cq_quals (ex_composed [ex_qual_a, ex_qual_b]) = [ex_qual_a, ex_qual_b]"
    by (simp_all add: ex_qual_a_def ex_qual_b_def ex_composed_def)
  have s: "rq_nspname ex_qual_a = ''s''" "rq_relname ex_qual_a = ''t''"
    "rq_nspname ex_qual_b = ''s''" "rq_relname ex_qual_b = ''t''"
    by (simp_all add: ex_qual_a_def ex_qual_b_def)
  from th[THEN conjunct2] n s
  have "possible_indexes (ex_composed [ex_qual_a, ex_qual_b])
     = Inr [\<lparr>hi_nspname = ''s'', hi_relname = ''t'', hi_qual = Some [ex_qual_a],
             hi_amname = ''btree'', hi_name = None\<rparr>,
            \<lparr>hi_nspname = ''s'', hi_relname = ''t'', hi_qual = Some [ex_qual_b],
             hi_amname = ''brin'', hi_name = None\<rparr>]"
    by simp
  moreover from th[THEN conjunct1] n
  have "\<exists>indexes. possible_indexes (ex_composed [ex_qual_a, ex_qual_b]) = Inr indexes
         \<and> set (map hi_amname indexes) = {''btree'', ''brin''}"
    by auto
  ultimately show ?thesis by simp
qed

text \<open>
  Claim C7 as the specification states it, for every composed qual, fails: a part that
  names btree twice is twice in the btree index, which so does not hold exactly the parts
  that support btree.
\<close>

theorem possible_indexes_repeated_name_counterexample:
  "cq_quals (ex_composed [ex_qual_a\<lparr>rq_indexam_names := [''btree'', ''btree'']\<rparr>])
     = [ex_qual_a\<lparr>rq_indexam_names := [''btree'', ''btree'']\<rparr>]
   \<and> possible_indexes (ex_composed [ex_qual_a\<lparr>rq_indexam_names := [''btree'', ''btree'']\<rparr>])
       = Inr [\<lparr>hi_nspname = ''s'', hi_relname = ''t'',
               hi_qual = Some [ex_qual_a\<lparr>rq_indexam_names := [''btree'', ''btree'']\<rparr>,
                               ex_qual_a\<lparr>rq_indexam_names := [''btree'', ''btree'']\<rparr>],
               hi_amname = ''btree'', hi_name = None\<rparr>]"
  by (simp add: possible_indexes_def group_by_am_def group_qual_def ex_composed_def ex_qual_a_def)

subsection \<open>The ranking query of \<open>qual_constants\<close>\<close>

lemma orders_recognized:
  "type \<in> {''most_executed'', ''most_filtering'', ''least_filtering''} \<Longrightarrow>
   \<exists>order_by. orders type = Some order_by"
  by (auto simp: orders_def)

text \<open>
  Claim C10. For every criterion other than \<open>most_executed\<close>, \<open>most_filtering\<close> and
  \<open>least_filtering\<close>, \<open>qual_constants\<close> returns \<open>None\<close>, whatever the filter clause, its
  compilation and the limit are: none of them is consulted. Only the three recognized
  criteria give a query: a result that is a query implies a recognized criterion, and a
  recognized criterion gives the ranking sub-query (the template filled with the
  criterion, the compiled filter and the order of the criterion, selected from with
  \<open>*\<close>), provided the filter has no parameter named \<open>top_value\<close> of its own.
\<close>

theorem qual_constants_unrecognized_returns_None:
  "(type \<notin> {''most_executed'', ''most_filtering'', ''least_filtering''} \<longrightarrow>
      qual_constants compile type filter_clause top_value = Inr None)
   \<and> (qual_constants compile type filter_clause top_value = Inr (Some query) \<longrightarrow>
        type \<in> {''most_executed'', ''most_filtering'', ''least_filtering''})
   \<and> (type \<in> {''most_executed'', ''most_filtering'', ''least_filtering''}
        \<and> ''top_value'' \<notin> dom (compiled_params (compile filter_clause)) \<longrightarrow>
        (\<exists>order_by. orders type = Some order_by
           \<and> qual_constants compile type filter_clause top_value
               = Inr (Some (SelectFrom [''*'']
                   (TextClause
                      (base_0 @ type @ base_1 @ compiled_str (compile filter_clause) @ base_2
                         @ order_by @ base_3 @ type @ base_4)
                      ((compiled_params (compile filter_clause))(''top_value'' \<mapsto> top_value)))))))"
proof (intro conjI impI)
  assume "type \<notin> {''most_executed'', ''most_filtering'', ''least_filtering''}"
  then show "qual_constants compile type filter_clause top_value = Inr None"
    by (simp add: qual_constants_def)
next
  assume "qual_constants compile type filter_clause top_value = Inr (Some query)"
  then show "type \<in> {''most_executed'', ''most_filtering'', ''least_filtering''}"
    by (auto simp: qual_constants_def split: if_splits)
next
  assume a: "type \<in> {''most_executed'', ''most_filtering'', ''least_filtering''}
        \<and> ''top_value'' \<notin> dom (compiled_params (compile filter_clause))"
  then obtain order_by where o: "orders type = Some order_by"
    using orders_recognized by blast
  have "qual_constants compile type filter_clause top_value
               = Inr (Some (SelectFrom [''*'']
                   (TextClause
                      (base_0 @ type @ base_1 @ compiled_str (compile filter_clause) @ base_2
                         @ order_by @ base_3 @ type @ base_4)
                      ((compiled_params (compile filter_clause))(''top_value'' \<mapsto> top_value)))))"
    using a o unfolding qual_constants_def Let_def by auto
  with o show "\<exists>order_by. orders type = Some order_by
           \<and> qual_constants compile type filter_clause top_value
               = Inr (Some (SelectFrom [''*'']
                   (TextClause
                      (base_0 @ type @ base_1 @ compiled_str (compile filter_clause) @ base_2
                         @ order_by @ base_3 @ type @ base_4)
                      ((compiled_params (compile filter_clause))(''top_value'' \<mapsto> top_value)))))"
    by blast
qed

text \<open>
  The theorem at the criterion \<open>most_popular\<close>, which is not recognized, and at
  \<open>most_executed\<close> with a filter that compiles to \<open>datname = :database\<close>.
\<close>

theorem qual_constants_unrecognized_returns_None_witness:
  "qual_constants (\<lambda>f. \<lparr>compiled_str = f, compiled_params = [''database'' \<mapsto> ''db'']\<rparr>)
     ''most_popular'' ''datname = :database'' ''1''
     = Inr None
   \<and> qual_constants (\<lambda>f. \<lparr>compiled_str = f, compiled_params = [''database'' \<mapsto> ''db'']\<rparr>)
       ''most_executed'' ''datname = :database'' ''1''
       = Inr (Some (SelectFrom [''*'']
           (TextClause
              (base_0 @ ''most_executed'' @ base_1 @ ''datname = :database'' @ base_2
                 @ ''4 DESC'' @ base_3 @ ''most_executed'' @ base_4)
              [''database'' \<mapsto> ''db'', ''top_value'' \<mapsto> ''1''])))"
proof -
  let ?compile = "\<lambda>f::string. \<lparr>compiled_str = f, compiled_params = [''database'' \<mapsto> ''db'']\<rparr>"
  note th = qual_constants_unrecognized_returns_None
    [where compile = ?compile and filter_clause = "''datname = :database''"
       and top_value = "''1''"]
  have "qual_constants ?compile ''most_popular'' ''datname = :database'' ''1'' = Inr None"
    using th[where type = "''most_popular''", THEN conjunct1] by simp
  moreover have "orders ''most_executed'' = Some ''4 DESC''"
    by (simp add: orders_def)
  then have "qual_constants ?compile ''most_executed'' ''datname = :database'' ''1''
       = Inr (Some (SelectFrom [''*'']
           (TextClause
              (base_0 @ ''most_executed'' @ base_1 @ ''datname = :database'' @ base_2
                 @ ''4 DESC'' @ base_3 @ ''most_executed'' @ base_4)
              [''database'' \<mapsto> ''db'', ''top_value'' \<mapsto> ''1''])))"
    using th[where type = "''most_executed''", THEN conjunct2, THEN conjunct2] by auto
  ultimately show ?thesis by simp
qed

end
